theory Spec2Isabelle
  imports Complex_Main "HOL-Library.Sublist"
begin

section \<open>JavaScript values\<close>

text \<open>
  The interfaces \<open>User\<close>, \<open>CreateUserDto\<close> and \<open>UpdateUserDto\<close> of
  \<^verbatim>\<open>backend/types/user.ts\<close> are erased when the program runs: the route handlers pass
  the result of \<^verbatim>\<open>request.json()\<close> to the service unchecked, and the service builds its
  records with object spread, which copies whatever properties its argument owns. The
  embedding therefore works on JavaScript values. An object is a finite map from property
  names to values; the interfaces reappear below as predicates on such values.

  A number is represented by its value. The code never computes with a number taken from a
  request, it only tests one for truthiness and writes it into a response, so \<open>NaN\<close> and
  the infinities (\<^verbatim>\<open>JSON.parse\<close> yields \<^verbatim>\<open>Infinity\<close> for \<^verbatim>\<open>1e999\<close>) are listed
  separately and nothing else about floating point is needed. A string is the list of its
  code units.
\<close>

datatype jsnum = Finite real | PosInfinity | NegInfinity | NaN

datatype jsval =
    JUndefined
  | JNull
  | JBool bool
  | JNum jsnum
  | JStr string
  | JArr "jsval list"
  | JObj "string \<Rightarrow> jsval option"

type_synonym obj = "string \<Rightarrow> jsval option"

text \<open>\<^verbatim>\<open>!v\<close> is \<open>\<not> truthy v\<close>: the falsy values are \<^verbatim>\<open>undefined\<close>, \<^verbatim>\<open>null\<close>,
  \<^verbatim>\<open>false\<close>, \<^verbatim>\<open>0\<close>, \<^verbatim>\<open>NaN\<close> and the empty string.\<close>

fun truthy :: "jsval \<Rightarrow> bool" where
  "truthy JUndefined = False"
| "truthy JNull = False"
| "truthy (JBool b) = b"
| "truthy (JNum (Finite r)) = (r \<noteq> 0)"
| "truthy (JNum NaN) = False"
| "truthy (JNum _) = True"
| "truthy (JStr s) = (s \<noteq> [])"
| "truthy (JArr _) = True"
| "truthy (JObj _) = True"

text \<open>\<^verbatim>\<open>o.k\<close> on an object: the value of the property, \<^verbatim>\<open>undefined\<close> when the object has
  no such property.\<close>

definition getProp :: "obj \<Rightarrow> string \<Rightarrow> jsval" where
  "getProp ob k = (case ob k of None \<Rightarrow> JUndefined | Some v \<Rightarrow> v)"

text \<open>\<^verbatim>\<open>v.k\<close> on any value, for a key \<open>k\<close> that no built-in prototype defines (as is the
  case for \<^verbatim>\<open>name\<close>, \<^verbatim>\<open>email\<close> and \<^verbatim>\<open>role\<close>): reading a property of
  \<^verbatim>\<open>undefined\<close> or \<^verbatim>\<open>null\<close> throws a TypeError (\<open>None\<close>); a primitive or an array has
  no such property.\<close>

fun member :: "jsval \<Rightarrow> string \<Rightarrow> jsval option" where
  "member JUndefined k = None"
| "member JNull k = None"
| "member (JObj ob) k = Some (getProp ob k)"
| "member _ k = Some JUndefined"

subsection \<open>Decimal strings\<close>

text \<open>\<^verbatim>\<open>Number.prototype.toString\<close> on an integer (below \<open>10\<^sup>2\<^sup>1\<close> in absolute value,
  which covers every time value and every array index).\<close>

definition digit :: "nat \<Rightarrow> char" where
  "digit d = ''0123456789'' ! d"

function toStringNat :: "nat \<Rightarrow> string" where
  "toStringNat n = (if n < 10 then [digit n] else toStringNat (n div 10) @ [digit (n mod 10)])"
  by pat_completeness auto
termination
  by (relation "measure (\<lambda>n. n)") auto

declare toStringNat.simps [simp del]

definition toString :: "int \<Rightarrow> string" where
  "toString i = (if i < 0 then CHR ''-'' # toStringNat (nat (- i)) else toStringNat (nat i))"

subsection \<open>Object spread\<close>

text \<open>The own enumerable properties that \<^verbatim>\<open>{...v}\<close> copies: none for \<^verbatim>\<open>undefined\<close>,
  \<^verbatim>\<open>null\<close>, a boolean or a number; the indices of a string or an array; the properties of
  an object.\<close>

definition indexed :: "jsval list \<Rightarrow> obj" where
  "indexed vs = map_of (zip (map (\<lambda>i. toStringNat i) [0..<length vs]) vs)"

fun ownProps :: "jsval \<Rightarrow> obj" where
  "ownProps (JObj ob) = ob"
| "ownProps (JArr vs) = indexed vs"
| "ownProps (JStr s) = indexed (map (\<lambda>c. JStr [c]) s)"
| "ownProps _ = Map.empty"

section \<open>The store: \<^verbatim>\<open>backend/services/userService.ts\<close>\<close>

text \<open>The module-level array \<^verbatim>\<open>users\<close> is the state; every operation takes it and
  the mutating ones return it updated. The two clock readings of \<^verbatim>\<open>create\<close>,
  \<^verbatim>\<open>Date.now()\<close> and \<^verbatim>\<open>new Date().toISOString()\<close>, are inputs.\<close>

type_synonym store = "obj list"

definition mkUser :: "string \<Rightarrow> string \<Rightarrow> string \<Rightarrow> string \<Rightarrow> string \<Rightarrow> obj" where
  "mkUser i n e r c =
     [''id'' \<mapsto> JStr i, ''name'' \<mapsto> JStr n, ''email'' \<mapsto> JStr e, ''role'' \<mapsto> JStr r,
      ''createdAt'' \<mapsto> JStr c]"

text \<open>The initial value of \<^verbatim>\<open>users\<close>; the three arguments are the clock readings taken
  when the module is loaded.\<close>

definition seed :: "string \<Rightarrow> string \<Rightarrow> string \<Rightarrow> store" where
  "seed c1 c2 c3 =
     [mkUser ''1'' ''John Doe'' ''john@example.com'' ''Admin'' c1,
      mkUser ''2'' ''Jane Smith'' ''jane@example.com'' ''User'' c2,
      mkUser ''3'' ''Bob Johnson'' ''bob@example.com'' ''User'' c3]"

text \<open>The predicate \<^verbatim>\<open>(user) => user.id === id\<close>, for a string \<open>id\<close>.\<close>

definition hasId :: "string \<Rightarrow> obj \<Rightarrow> bool" where
  "hasId i u = (getProp u ''id'' = JStr i)"

text \<open>\<^verbatim>\<open>Array.prototype.findIndex\<close>; \<open>None\<close> stands for the result \<open>-1\<close>.\<close>

fun findIndex :: "('a \<Rightarrow> bool) \<Rightarrow> 'a list \<Rightarrow> nat option" where
  "findIndex P [] = None"
| "findIndex P (x # xs) =
     (if P x then Some 0 else case findIndex P xs of None \<Rightarrow> None | Some i \<Rightarrow> Some (Suc i))"

text \<open>\<^verbatim>\<open>xs.splice(i, 1)\<close>, for an index inside the array.\<close>

definition splice1 :: "nat \<Rightarrow> 'a list \<Rightarrow> 'a list" where
  "splice1 i xs = take i xs @ drop (Suc i) xs"

definition getAll :: "store \<Rightarrow> obj list" where
  "getAll users = users"

text \<open>\<^verbatim>\<open>Array.prototype.find\<close> is \<^const>\<open>find\<close>; \<open>None\<close> stands for \<^verbatim>\<open>undefined\<close>.\<close>

definition getById :: "string \<Rightarrow> store \<Rightarrow> obj option" where
  "getById i users = find (hasId i) users"

definition create :: "int \<Rightarrow> string \<Rightarrow> jsval \<Rightarrow> store \<Rightarrow> obj \<times> store" where
  "create now isoNow data users =
     (let newUser = ([''id'' \<mapsto> JStr (toString now)] ++ ownProps data)(''createdAt'' \<mapsto> JStr isoNow)
      in (newUser, users @ [newUser]))"

text \<open>The result \<open>None\<close> stands for \<^verbatim>\<open>null\<close>.\<close>

definition update :: "string \<Rightarrow> jsval \<Rightarrow> store \<Rightarrow> obj option \<times> store" where
  "update i data users =
     (case findIndex (hasId i) users of
        None \<Rightarrow> (None, users)
      | Some index \<Rightarrow>
          (let users' = users[index := (users ! index) ++ ownProps data]
           in (Some (users' ! index), users')))"

definition delete :: "string \<Rightarrow> store \<Rightarrow> bool \<times> store" where
  "delete i users =
     (case findIndex (hasId i) users of
        None \<Rightarrow> (False, users)
      | Some index \<Rightarrow> (True, splice1 index users))"

subsection \<open>Sequences of calls\<close>

text \<open>A run of store operations: \<open>run\<close> gives the final state, \<open>created\<close> the records
  that the \<^verbatim>\<open>create\<close> calls returned (in call order), \<open>returned\<close> the records that the
  \<^verbatim>\<open>create\<close> and \<^verbatim>\<open>update\<close> calls returned, and \<open>deleted\<close> the number of
  \<^verbatim>\<open>delete\<close> calls that returned \<^verbatim>\<open>true\<close>.\<close>

datatype storeOp =
    Create int string jsval
  | Update string jsval
  | Delete string

fun step :: "storeOp \<Rightarrow> store \<Rightarrow> store" where
  "step (Create now isoNow data) users = snd (create now isoNow data users)"
| "step (Update i data) users = snd (update i data users)"
| "step (Delete i) users = snd (delete i users)"

fun run :: "storeOp list \<Rightarrow> store \<Rightarrow> store" where
  "run [] users = users"
| "run (x # xs) users = run xs (step x users)"

fun created :: "storeOp list \<Rightarrow> store \<Rightarrow> obj list" where
  "created [] users = []"
| "created (Create now isoNow data # xs) users =
     fst (create now isoNow data users) # created xs (step (Create now isoNow data) users)"
| "created (x # xs) users = created xs (step x users)"

fun returned :: "storeOp list \<Rightarrow> store \<Rightarrow> obj list" where
  "returned [] users = []"
| "returned (Create now isoNow data # xs) users =
     fst (create now isoNow data users) # returned xs (step (Create now isoNow data) users)"
| "returned (Update i data # xs) users =
     (case fst (update i data users) of
        None \<Rightarrow> returned xs (step (Update i data) users)
      | Some u \<Rightarrow> u # returned xs (step (Update i data) users))"
| "returned (x # xs) users = returned xs (step x users)"

fun deleted :: "storeOp list \<Rightarrow> store \<Rightarrow> nat" where
  "deleted [] users = 0"
| "deleted (Delete i # xs) users =
     (if fst (delete i users) then 1 else 0) + deleted xs (step (Delete i) users)"
| "deleted (x # xs) users = deleted xs (step x users)"

fun isUpdate :: "storeOp \<Rightarrow> bool" where
  "isUpdate (Update _ _) = True"
| "isUpdate _ = False"

fun isCreate :: "storeOp \<Rightarrow> bool" where
  "isCreate (Create _ _ _) = True"
| "isCreate _ = False"

subsection \<open>The last-written state of each record\<close>

text \<open>A second account of a run, after the words of the specification rather than the
  code of the store: a ledger with one entry for each live record, holding the number of the
  \<^verbatim>\<open>create\<close> call that made the record and the state last written to it, which is the
  record that the latest \<^verbatim>\<open>create\<close> or \<^verbatim>\<open>update\<close> call on it returned. A
  \<^verbatim>\<open>create\<close> call adds an entry at the end; an \<^verbatim>\<open>update\<close> call that returns a record
  writes it to the entry it located by id, the earliest one whose state has the id; a
  \<^verbatim>\<open>delete\<close> call that returns \<^verbatim>\<open>true\<close> removes the entry it located by id. The return
  values are those of the store operations on the running state.\<close>

type_synonym ledger = "(nat \<times> obj) list"

fun overwriteFirst :: "(obj \<Rightarrow> bool) \<Rightarrow> obj \<Rightarrow> ledger \<Rightarrow> ledger" where
  "overwriteFirst P u [] = []"
| "overwriteFirst P u (e # es) = (if P (snd e) then (fst e, u) # es else e # overwriteFirst P u es)"

fun removeFirst :: "(obj \<Rightarrow> bool) \<Rightarrow> ledger \<Rightarrow> ledger" where
  "removeFirst P [] = []"
| "removeFirst P (e # es) = (if P (snd e) then es else e # removeFirst P es)"

fun lastWritten :: "storeOp list \<Rightarrow> store \<Rightarrow> ledger \<Rightarrow> nat \<Rightarrow> ledger" where
  "lastWritten [] users led n = led"
| "lastWritten (Create now isoNow data # xs) users led n =
     lastWritten xs (step (Create now isoNow data) users)
       (led @ [(n, fst (create now isoNow data users))]) (Suc n)"
| "lastWritten (Update i data # xs) users led n =
     lastWritten xs (step (Update i data) users)
       (case fst (update i data users) of
          None \<Rightarrow> led
        | Some u \<Rightarrow> overwriteFirst (hasId i) u led) n"
| "lastWritten (Delete i # xs) users led n =
     lastWritten xs (step (Delete i) users)
       (if fst (delete i users) then removeFirst (hasId i) led else led) n"

subsection \<open>The interfaces of \<^verbatim>\<open>backend/types/user.ts\<close> as predicates\<close>

fun isString :: "jsval \<Rightarrow> bool" where
  "isString (JStr _) = True"
| "isString _ = False"

text \<open>\<^verbatim>\<open>CreateUserDto\<close>: an object with exactly the string properties \<^verbatim>\<open>name\<close>,
  \<^verbatim>\<open>email\<close> and \<^verbatim>\<open>role\<close>.\<close>

fun CreateUserDto :: "jsval \<Rightarrow> bool" where
  "CreateUserDto (JObj ob) =
     (dom ob = {''name'', ''email'', ''role''} \<and> (\<forall>k \<in> dom ob. isString (getProp ob k)))"
| "CreateUserDto _ = False"

text \<open>\<^verbatim>\<open>UpdateUserDto\<close>: an object whose properties are among \<^verbatim>\<open>name\<close>, \<^verbatim>\<open>email\<close> and
  \<^verbatim>\<open>role\<close>, each a string (or \<^verbatim>\<open>undefined\<close>, which an optional property admits).\<close>

fun UpdateUserDto :: "jsval \<Rightarrow> bool" where
  "UpdateUserDto (JObj ob) =
     (dom ob \<subseteq> {''name'', ''email'', ''role''} \<and>
      (\<forall>k \<in> dom ob. isString (getProp ob k) \<or> getProp ob k = JUndefined))"
| "UpdateUserDto _ = False"

section \<open>The API layer: the route handlers\<close>

text \<open>A handler takes the state, the route parameter and the outcome of
  \<^verbatim>\<open>await request.json()\<close>: \<open>None\<close> when the promise rejects (the body is not JSON), the
  parsed value otherwise. It returns the response and the state; the body of a response is
  the JSON value that the client reads. Every \<^verbatim>\<open>catch\<close> block is a branch.\<close>

record response =
  status :: nat
  body :: jsval

text \<open>\<^verbatim>\<open>JSON.stringify\<close>, read as the JSON value that its text denotes: a non-finite
  number becomes \<^verbatim>\<open>null\<close>, an \<^verbatim>\<open>undefined\<close> array element becomes \<^verbatim>\<open>null\<close>, and a
  property whose value is \<^verbatim>\<open>undefined\<close> is left out. For \<^verbatim>\<open>undefined\<close> itself there is
  no text; the result \<open>JUndefined\<close> marks that.\<close>

primrec toJSON :: "jsval \<Rightarrow> jsval" where
  "toJSON JUndefined = JUndefined"
| "toJSON JNull = JNull"
| "toJSON (JBool b) = JBool b"
| "toJSON (JNum n) = (case n of Finite r \<Rightarrow> JNum (Finite r) | _ \<Rightarrow> JNull)"
| "toJSON (JStr s) = JStr s"
| "toJSON (JArr vs) = JArr (map (\<lambda>v. case v of JUndefined \<Rightarrow> JNull | _ \<Rightarrow> v) (map toJSON vs))"
| "toJSON (JObj ob) =
     JObj (\<lambda>k. case map_option toJSON (ob k) of Some JUndefined \<Rightarrow> None | w \<Rightarrow> w)"

text \<open>A value that a response carries unchanged.\<close>

definition survives :: "jsval \<Rightarrow> bool" where
  "survives v = (toJSON v = v \<and> v \<noteq> JUndefined)"

text \<open>\<^verbatim>\<open>NextResponse.json(v, { status })\<close>: the body is the serialisation of \<open>v\<close>; the
  status is 200 when none is given. The handlers pass an object or an array, never
  \<^verbatim>\<open>undefined\<close>.\<close>

definition json :: "jsval \<Rightarrow> nat \<Rightarrow> response" where
  "json v st = \<lparr>status = st, body = toJSON v\<rparr>"

definition errorBody :: "string \<Rightarrow> jsval" where
  "errorBody msg = JObj [''error'' \<mapsto> JStr msg]"

definition GET :: "store \<Rightarrow> response" where
  "GET users = json (JArr (map JObj (getAll users))) 200"

text \<open>The test \<^verbatim>\<open>!body.name || !body.email || !body.role\<close>; \<open>None\<close> when reading a
  property throws.\<close>

definition fieldMissing :: "jsval \<Rightarrow> bool option" where
  "fieldMissing b =
     (case member b ''name'' of
        None \<Rightarrow> None
      | Some n \<Rightarrow>
          if \<not> truthy n then Some True
          else (case member b ''email'' of
                  None \<Rightarrow> None
                | Some e \<Rightarrow>
                    if \<not> truthy e then Some True
                    else (case member b ''role'' of
                            None \<Rightarrow> None
                          | Some r \<Rightarrow> Some (\<not> truthy r))))"

definition POST :: "int \<Rightarrow> string \<Rightarrow> jsval option \<Rightarrow> store \<Rightarrow> response \<times> store" where
  "POST now isoNow request users =
     (case request of
        None \<Rightarrow> (json (errorBody ''Failed to create user'') 500, users)
      | Some b \<Rightarrow>
          (case fieldMissing b of
             None \<Rightarrow> (json (errorBody ''Failed to create user'') 500, users)
           | Some True \<Rightarrow> (json (errorBody ''Name, email, and role are required'') 400, users)
           | Some False \<Rightarrow>
               (let (newUser, users') = create now isoNow b users
                in (json (JObj newUser) 201, users'))))"

definition PUT :: "string \<Rightarrow> jsval option \<Rightarrow> store \<Rightarrow> response \<times> store" where
  "PUT i request users =
     (case request of
        None \<Rightarrow> (json (errorBody ''Failed to update user'') 500, users)
      | Some b \<Rightarrow>
          (case update i b users of
             (None, users') \<Rightarrow> (json (errorBody ''User not found'') 404, users')
           | (Some updatedUser, users') \<Rightarrow> (json (JObj updatedUser) 200, users')))"

definition DELETE :: "string \<Rightarrow> store \<Rightarrow> response \<times> store" where
  "DELETE i users =
     (case delete i users of
        (False, users') \<Rightarrow> (json (errorBody ''User not found'') 404, users')
      | (True, users') \<Rightarrow>
          (json (JObj [''message'' \<mapsto> JStr ''User deleted successfully'']) 200, users'))"

section \<open>A concrete scenario\<close>

text \<open>Two creation inputs, a seed state, and two \<^verbatim>\<open>create\<close> calls that read the same
  value from \<^verbatim>\<open>Date.now()\<close>: the second call runs less than a millisecond after the
  first.\<close>

definition ann :: jsval where
  "ann = JObj [''name'' \<mapsto> JStr ''Ann'', ''email'' \<mapsto> JStr ''ann@x.com'', ''role'' \<mapsto> JStr ''User'']"

definition bea :: jsval where
  "bea = JObj [''name'' \<mapsto> JStr ''Bea'', ''email'' \<mapsto> JStr ''bea@x.com'', ''role'' \<mapsto> JStr ''Admin'']"

definition seed0 :: store where
  "seed0 = seed ''2023-11-14T22:00:00.000Z'' ''2023-11-14T22:00:00.000Z'' ''2023-11-14T22:00:00.000Z''"

definition sameMillisecond :: "storeOp list" where
  "sameMillisecond =
     [Create 1700000000000 ''2023-11-14T22:13:20.000Z'' ann,
      Create 1700000000000 ''2023-11-14T22:13:20.000Z'' bea]"

section \<open>Facts about the array primitives\<close>

lemma findIndex_None_iff: "findIndex P xs = None \<longleftrightarrow> (\<forall>x \<in> set xs. \<not> P x)"
  by (induction xs) (auto split: option.splits)

lemma findIndex_Some_iff:
  "findIndex P xs = Some i \<longleftrightarrow> i < length xs \<and> P (xs ! i) \<and> (\<forall>j < i. \<not> P (xs ! j))"
proof (induction xs arbitrary: i)
  case Nil
  show ?case by simp
next
  case (Cons x xs)
  show ?case
  proof (cases "P x")
    case True
    then show ?thesis by (cases i) auto
  next
    case False
    show ?thesis
    proof (cases i)
      case 0
      with False show ?thesis by (simp split: option.splits)
    next
      case (Suc n)
      have "(\<forall>j < Suc n. \<not> P ((x # xs) ! j)) \<longleftrightarrow> (\<forall>j < n. \<not> P (xs ! j))"
        using False by (auto simp: less_Suc_eq_0_disj)
      with False Suc Cons.IH [of n] show ?thesis
        by (auto split: option.splits)
    qed
  qed
qed

lemma findIndex_exists: "(\<exists>x \<in> set xs. P x) \<longleftrightarrow> (\<exists>i. findIndex P xs = Some i)"
  using findIndex_None_iff [of P xs] by (cases "findIndex P xs") auto

lemma find_findIndex: "find P xs = map_option (\<lambda>i. xs ! i) (findIndex P xs)"
  by (induction xs) (auto split: option.splits)

lemma length_splice1: "i < length xs \<Longrightarrow> Suc (length (splice1 i xs)) = length xs"
  by (simp add: splice1_def)

lemma splice1_nth:
  "i < length xs \<Longrightarrow> j < length xs - 1 \<Longrightarrow>
     splice1 i xs ! j = (if j < i then xs ! j else xs ! Suc j)"
  by (auto simp: splice1_def nth_append min_def)

lemma findIndex_least:
  assumes "a < length xs" and "P (xs ! a)"
  shows "\<exists>first \<le> a. findIndex P xs = Some first"
proof -
  from assms have "\<exists>x \<in> set xs. P x" using nth_mem by blast
  then obtain first where f: "findIndex P xs = Some first"
    by (auto simp: findIndex_exists)
  then have "\<forall>j < first. \<not> P (xs ! j)" by (simp add: findIndex_Some_iff)
  with assms(2) have "first \<le> a" by (meson not_le)
  with f show ?thesis by blast
qed

lemma splice1_before: "j < i \<Longrightarrow> i < length xs \<Longrightarrow> splice1 i xs ! j = xs ! j"
  by (simp add: splice1_def nth_append)

lemma splice1_after:
  "i < j \<Longrightarrow> j < length xs \<Longrightarrow> splice1 i xs ! (j - 1) = xs ! j"
  by (auto simp: splice1_def nth_append min_def)

lemma findIndex_list_update:
  assumes "findIndex P xs = Some ix" and "P y"
  shows "findIndex P (xs[ix := y]) = Some ix"
  using assms by (auto simp: findIndex_Some_iff)

lemma find_append_absent: "\<forall>x \<in> set xs. \<not> P x \<Longrightarrow> find P (xs @ ys) = find P ys"
  by (induction xs) simp_all

lemma subseq_splice1: "subseq (splice1 i xs) xs"
proof -
  have "subseq (drop (Suc i) xs) (drop i xs)"
    by (metis Suc_eq_plus1 add.commute drop_drop suffix_drop suffix_imp_subseq)
  then have "subseq (take i xs @ drop (Suc i) xs) (take i xs @ drop i xs)"
    by (simp only: subseq_append')
  then show ?thesis by (simp add: splice1_def)
qed

section \<open>Facts about the store operations\<close>

lemma update_absent_eq:
  "\<forall>u \<in> set users. \<not> hasId i u \<Longrightarrow> update i data users = (None, users)"
  by (simp add: update_def findIndex_None_iff [THEN iffD2])

lemma update_present_eq:
  assumes "findIndex (hasId i) users = Some index"
  shows "update i data users =
    (Some (users ! index ++ ownProps data), users[index := users ! index ++ ownProps data])"
proof -
  from assms have "index < length users"
    by (simp add: findIndex_Some_iff)
  with assms show ?thesis
    by (simp add: update_def)
qed

lemma delete_absent_eq:
  "\<forall>u \<in> set users. \<not> hasId i u \<Longrightarrow> delete i users = (False, users)"
  by (simp add: delete_def findIndex_None_iff [THEN iffD2])

lemma delete_present_eq:
  "findIndex (hasId i) users = Some index \<Longrightarrow> delete i users = (True, splice1 index users)"
  by (simp add: delete_def)

lemma getById_absent: "\<forall>u \<in> set users. \<not> hasId i u \<Longrightarrow> getById i users = None"
  by (simp add: getById_def find_findIndex findIndex_None_iff [THEN iffD2])

lemma getById_present:
  "findIndex (hasId i) users = Some index \<Longrightarrow> getById i users = Some (users ! index)"
  by (simp add: getById_def find_findIndex)

lemma funpow_fixed: "f x = x \<Longrightarrow> (f ^^ n) x = x"
  by (induction n) simp_all

lemma spread_apply:
  "(ob ++ ownProps data) k = (case ownProps data k of None \<Rightarrow> ob k | Some v \<Rightarrow> Some v)"
  by (simp add: map_add_def)

lemma UpdateUserDto_keeps:
  assumes "UpdateUserDto data" and "k \<notin> {''name'', ''email'', ''role''}"
  shows "ownProps data k = None"
proof (cases data)
  case (JObj ob)
  with assms have "dom ob \<subseteq> {''name'', ''email'', ''role''}" by simp
  with assms(2) have "k \<notin> dom ob" by blast
  with JObj show ?thesis by (simp add: domIff)
qed (use assms in simp_all)

lemma hasId_mkUser: "hasId i (mkUser j n e r c) \<longleftrightarrow> j = i"
  by (simp add: hasId_def mkUser_def getProp_def)

lemma getProp_mkUser_id: "getProp (mkUser j n e r c) ''id'' = JStr j"
  by (simp add: mkUser_def getProp_def)

lemma create_ann:
  "create 1700000000000 c ann users =
     (mkUser ''1700000000000'' ''Ann'' ''ann@x.com'' ''User'' c,
      users @ [mkUser ''1700000000000'' ''Ann'' ''ann@x.com'' ''User'' c])"
  by (simp add: create_def Let_def ann_def mkUser_def toString_def toStringNat.simps digit_def)

lemma create_bea:
  "create 1700000000000 c bea users =
     (mkUser ''1700000000000'' ''Bea'' ''bea@x.com'' ''Admin'' c,
      users @ [mkUser ''1700000000000'' ''Bea'' ''bea@x.com'' ''Admin'' c])"
  by (simp add: create_def Let_def bea_def mkUser_def toString_def toStringNat.simps digit_def)

lemma run_sameMillisecond:
  "run sameMillisecond seed0 =
     seed0 @ [mkUser ''1700000000000'' ''Ann'' ''ann@x.com'' ''User'' ''2023-11-14T22:13:20.000Z'',
              mkUser ''1700000000000'' ''Bea'' ''bea@x.com'' ''Admin'' ''2023-11-14T22:13:20.000Z'']"
  by (simp add: sameMillisecond_def create_ann create_bea)

lemma create_appends:
  "snd (create now isoNow data users) = users @ [fst (create now isoNow data users)]"
  by (simp add: create_def Let_def)

lemma create_id:
  "ownProps data ''id'' = None \<Longrightarrow>
     getProp (fst (create now isoNow data users)) ''id'' = JStr (toString now)"
  by (simp add: create_def Let_def getProp_def map_add_def)

lemma getById_create_fresh:
  assumes "ownProps data ''id'' = None" and "\<forall>u \<in> set users. \<not> hasId (toString now) u"
  shows "getById (toString now) (snd (create now isoNow data users)) =
    Some (fst (create now isoNow data users))"
proof -
  have "hasId (toString now) (fst (create now isoNow data users))"
    using create_id [OF assms(1)] by (simp add: hasId_def)
  with assms(2) show ?thesis
    by (simp add: getById_def create_appends find_append_absent)
qed

lemma distinct_ids_create_fresh:
  assumes "distinct (map (\<lambda>u. getProp u ''id'') users)"
    and "ownProps data ''id'' = None" and "\<forall>u \<in> set users. \<not> hasId (toString now) u"
  shows "distinct (map (\<lambda>u. getProp u ''id'') (snd (create now isoNow data users)))"
  using assms create_id [OF assms(2), of now isoNow users]
  by (auto simp: create_appends hasId_def)

text \<open>The interfaces do not list \<^verbatim>\<open>id\<close> among the properties of a creation or update
  argument, but nothing checks an argument against them when the program runs: an \<^verbatim>\<open>id\<close>
  in the argument replaces the generated id in \<^verbatim>\<open>create\<close> and the stored id in
  \<^verbatim>\<open>update\<close>.\<close>

lemma create_body_id_wins:
  "getProp (fst (create now isoNow (JObj (ob(''id'' \<mapsto> v))) users)) ''id'' = v"
  by (simp add: create_def Let_def getProp_def)

lemma update_body_id_wins:
  assumes "\<exists>u \<in> set users. hasId i u"
  shows "\<exists>u'. fst (update i (JObj (ob(''id'' \<mapsto> v))) users) = Some u' \<and> getProp u' ''id'' = v"
proof -
  from assms obtain index where "findIndex (hasId i) users = Some index"
    by (auto simp: findIndex_exists)
  then show ?thesis
    by (simp add: update_present_eq getProp_def)
qed

lemma delete_result: "fst (delete i users) \<longleftrightarrow> (\<exists>u \<in> set users. hasId i u)"
proof (cases "findIndex (hasId i) users")
  case None
  then show ?thesis by (simp add: delete_def findIndex_None_iff [symmetric])
next
  case (Some index)
  then have "\<exists>u \<in> set users. hasId i u" by (auto simp: findIndex_exists)
  with Some show ?thesis by (simp add: delete_def)
qed

lemma delete_only_match:
  assumes "findIndex (hasId i) users = Some index"
    and "\<forall>j < length users. j \<noteq> index \<longrightarrow> \<not> hasId i (users ! j)"
  shows "getById i (snd (delete i users)) = None \<and> \<not> fst (delete i (snd (delete i users)))"
proof -
  from assms(1) have lt: "index < length users" by (simp add: findIndex_Some_iff)
  have "\<not> hasId i u" if "u \<in> set (splice1 index users)" for u
  proof -
    from that obtain j where j: "j < length (splice1 index users)" "u = splice1 index users ! j"
      by (auto simp: in_set_conv_nth)
    with lt length_splice1 [of index users] have jl: "j < length users - 1" by simp
    show ?thesis
    proof (cases "j < index")
      case True
      with j lt assms(2) show ?thesis by (simp add: splice1_before)
    next
      case False
      with jl have "Suc j < length users" "Suc j \<noteq> index" by simp_all
      with assms(2) have "\<not> hasId i (users ! Suc j)" by blast
      with j jl lt False show ?thesis by (simp add: splice1_nth)
    qed
  qed
  then have none: "\<forall>u \<in> set (snd (delete i users)). \<not> hasId i u"
    using assms(1) by (simp add: delete_present_eq)
  then show ?thesis
    by (simp add: getById_absent delete_absent_eq)
qed

lemma delete_length:
  "length (snd (delete i users)) + (if fst (delete i users) then 1 else 0) = length users"
proof (cases "findIndex (hasId i) users")
  case None
  then show ?thesis by (simp add: delete_def)
next
  case (Some index)
  then have "index < length users" by (simp add: findIndex_Some_iff)
  with Some show ?thesis
    using length_splice1 [of index users] by (simp add: delete_def)
qed

lemma update_length: "length (snd (update i data users)) = length users"
  by (simp add: update_def Let_def split: option.splits)

lemma subseq_delete: "subseq (snd (delete i users)) users"
  by (simp add: delete_def subseq_splice1 split: option.splits)

lemma run_length:
  "length (run ops users) + deleted ops users = length users + length (filter isCreate ops)"
proof (induction ops arbitrary: users)
  case Nil
  show ?case by simp
next
  case (Cons x ops)
  show ?case
  proof (cases x)
    case (Create now isoNow data)
    with Cons.IH [of "snd (create now isoNow data users)"] show ?thesis
      by (simp add: create_appends)
  next
    case (Update i data)
    with Cons.IH [of "snd (update i data users)"] show ?thesis
      by (simp add: update_length)
  next
    case (Delete i)
    with Cons.IH [of "snd (delete i users)"] delete_length [of i users] show ?thesis
      by simp
  qed
qed

lemma run_subseq:
  "\<forall>x \<in> set ops. \<not> isUpdate x \<Longrightarrow> subseq (run ops users) (users @ created ops users)"
proof (induction ops arbitrary: users)
  case Nil
  show ?case by simp
next
  case (Cons x ops)
  then have rest: "\<forall>x \<in> set ops. \<not> isUpdate x" by simp
  show ?case
  proof (cases x)
    case (Create now isoNow data)
    with Cons.IH [OF rest, of "snd (create now isoNow data users)"] show ?thesis
      by (simp add: create_appends)
  next
    case (Update i data)
    with Cons.prems show ?thesis by simp
  next
    case (Delete i)
    have "subseq (snd (delete i users) @ created ops (snd (delete i users)))
        (users @ created ops (snd (delete i users)))"
      by (rule list_emb_append_mono) (simp_all add: subseq_delete)
    with Cons.IH [OF rest, of "snd (delete i users)"]
    have "subseq (run ops (snd (delete i users))) (users @ created ops (snd (delete i users)))"
      by (rule subseq_order.trans)
    with Delete show ?thesis by simp
  qed
qed

lemma set_splice1: "set (splice1 i xs) \<subseteq> set xs"
  by (auto simp: splice1_def dest: in_set_takeD in_set_dropD)

lemma set_delete: "set (snd (delete i users)) \<subseteq> set users"
  by (auto simp: delete_def split: option.splits dest: set_splice1 [THEN subsetD])

lemma set_update:
  "set (snd (update i data users)) \<subseteq>
     set users \<union> (case fst (update i data users) of None \<Rightarrow> {} | Some u \<Rightarrow> {u})"
proof (cases "findIndex (hasId i) users")
  case None
  then show ?thesis by (simp add: update_def)
next
  case (Some index)
  then show ?thesis
    using set_update_subset_insert [of users index "users ! index ++ ownProps data"]
    by (auto simp: update_present_eq)
qed

lemma run_returned: "set (run ops users) \<subseteq> set users \<union> set (returned ops users)"
proof (induction ops arbitrary: users)
  case Nil
  show ?case by simp
next
  case (Cons x ops)
  show ?case
  proof (cases x)
    case (Create now isoNow data)
    with Cons.IH [of "snd (create now isoNow data users)"] show ?thesis
      by (auto simp: create_appends)
  next
    case (Update i data)
    with Cons.IH [of "snd (update i data users)"] set_update [of i data users] show ?thesis
      by (auto split: option.splits)
  next
    case (Delete i)
    with Cons.IH [of "snd (delete i users)"] set_delete [of i users] show ?thesis
      by auto
  qed
qed

lemma map_snd_overwriteFirst:
  "findIndex P (map snd led) = Some index \<Longrightarrow>
     map snd (overwriteFirst P u led) = (map snd led)[index := u]"
proof (induction led arbitrary: index)
  case Nil
  then show ?case by simp
next
  case (Cons e es)
  show ?case
  proof (cases "P (snd e)")
    case True
    with Cons.prems show ?thesis by simp
  next
    case False
    with Cons.prems obtain j where j: "findIndex P (map snd es) = Some j" "index = Suc j"
      by (auto split: option.splits)
    with False Cons.IH [of j] show ?thesis by simp
  qed
qed

lemma map_snd_removeFirst:
  "findIndex P (map snd led) = Some index \<Longrightarrow>
     map snd (removeFirst P led) = splice1 index (map snd led)"
proof (induction led arbitrary: index)
  case Nil
  then show ?case by simp
next
  case (Cons e es)
  show ?case
  proof (cases "P (snd e)")
    case True
    with Cons.prems show ?thesis by (simp add: splice1_def)
  next
    case False
    with Cons.prems obtain j where j: "findIndex P (map snd es) = Some j" "index = Suc j"
      by (auto split: option.splits)
    with False Cons.IH [of j] show ?thesis by (simp add: splice1_def)
  qed
qed

lemma map_fst_overwriteFirst: "map fst (overwriteFirst P u led) = map fst led"
  by (induction led) simp_all

lemma set_removeFirst: "set (removeFirst P led) \<subseteq> set led"
  by (induction led) auto

lemma sorted_removeFirst:
  "sorted_wrt (<) (map fst led) \<Longrightarrow> sorted_wrt (<) (map fst (removeFirst P led))"
proof (induction led)
  case Nil
  then show ?case by simp
next
  case (Cons e es)
  then show ?case
    using set_removeFirst [of P es] by auto
qed

lemma lastWritten_states:
  "map snd led = users \<Longrightarrow> map snd (lastWritten ops users led n) = run ops users"
proof (induction ops arbitrary: users led n)
  case Nil
  then show ?case by simp
next
  case (Cons x ops)
  show ?case
  proof (cases x)
    case (Create now isoNow data)
    have "map snd (led @ [(n, fst (create now isoNow data users))]) =
        snd (create now isoNow data users)"
      using Cons.prems by (simp add: create_appends)
    from Cons.IH [OF this] Create show ?thesis by simp
  next
    case (Update i data)
    have "map snd (case fst (update i data users) of None \<Rightarrow> led
        | Some u \<Rightarrow> overwriteFirst (hasId i) u led) = snd (update i data users)"
    proof (cases "findIndex (hasId i) users")
      case None
      with Cons.prems show ?thesis by (simp add: update_def)
    next
      case (Some index)
      with Cons.prems show ?thesis
        by (simp add: update_present_eq map_snd_overwriteFirst)
    qed
    from Cons.IH [OF this] Update show ?thesis by simp
  next
    case (Delete i)
    have "map snd (if fst (delete i users) then removeFirst (hasId i) led else led) =
        snd (delete i users)"
    proof (cases "findIndex (hasId i) users")
      case None
      with Cons.prems show ?thesis by (simp add: delete_def)
    next
      case (Some index)
      with Cons.prems show ?thesis
        by (simp add: delete_present_eq map_snd_removeFirst)
    qed
    from Cons.IH [OF this] Delete show ?thesis by simp
  qed
qed

lemma lastWritten_numbers:
  "sorted_wrt (<) (map fst led) \<Longrightarrow> \<forall>e \<in> set led. fst e < n \<Longrightarrow>
     sorted_wrt (<) (map fst (lastWritten ops users led n)) \<and>
     (\<forall>e \<in> set (lastWritten ops users led n). fst e < n + length (filter isCreate ops))"
proof (induction ops arbitrary: users led n)
  case Nil
  then show ?case by simp
next
  case (Cons x ops)
  show ?case
  proof (cases x)
    case (Create now isoNow data)
    let ?led = "led @ [(n, fst (create now isoNow data users))]"
    have "sorted_wrt (<) (map fst ?led)"
      using Cons.prems by (auto simp: sorted_wrt_append)
    moreover have "\<forall>e \<in> set ?led. fst e < Suc n"
      using Cons.prems by auto
    ultimately show ?thesis
      using Cons.IH [of ?led "Suc n" "step x users"] Create by simp
  next
    case (Update i data)
    let ?led = "case fst (update i data users) of None \<Rightarrow> led
        | Some u \<Rightarrow> overwriteFirst (hasId i) u led"
    have m: "map fst ?led = map fst led"
      by (simp add: map_fst_overwriteFirst split: option.splits)
    then have "sorted_wrt (<) (map fst ?led)" using Cons.prems by simp
    moreover have "\<forall>e \<in> set ?led. fst e < n"
    proof -
      have "fst ` set ?led = fst ` set led" using m by (metis set_map)
      with Cons.prems(2) show ?thesis by (metis (no_types, lifting) imageE imageI)
    qed
    ultimately show ?thesis
      using Cons.IH [of ?led n "step x users"] Update by simp
  next
    case (Delete i)
    let ?led = "if fst (delete i users) then removeFirst (hasId i) led else led"
    have "sorted_wrt (<) (map fst ?led)"
      using Cons.prems by (simp add: sorted_removeFirst)
    moreover have "\<forall>e \<in> set ?led. fst e < n"
      using Cons.prems set_removeFirst [of "hasId i" led] by auto
    ultimately show ?thesis
      using Cons.IH [of ?led n "step x users"] Delete by simp
  qed
qed

lemma created_numbers:
  assumes "\<forall>x \<in> set ops. \<not> isUpdate x"
    and "\<forall>e \<in> set led. fst e < length pre \<and> snd e = pre ! fst e" and "n = length pre"
  shows "\<forall>e \<in> set (lastWritten ops users led n). snd e = (pre @ created ops users) ! fst e"
  using assms
proof (induction ops arbitrary: users led n pre)
  case Nil
  then show ?case by (simp add: nth_append)
next
  case (Cons x ops)
  then have rest: "\<forall>x \<in> set ops. \<not> isUpdate x" by simp
  show ?case
  proof (cases x)
    case (Create now isoNow data)
    let ?c = "fst (create now isoNow data users)"
    have "\<forall>e \<in> set (led @ [(n, ?c)]). fst e < length (pre @ [?c]) \<and> snd e = (pre @ [?c]) ! fst e"
      using Cons.prems(2,3) by (auto simp: nth_append)
    moreover have "Suc n = length (pre @ [?c])" using Cons.prems(3) by simp
    ultimately have "\<forall>e \<in> set (lastWritten ops (step x users) (led @ [(n, ?c)]) (Suc n)).
        snd e = ((pre @ [?c]) @ created ops (step x users)) ! fst e"
      using Cons.IH [OF rest] by blast
    with Create show ?thesis by simp
  next
    case (Update i data)
    with Cons.prems(1) show ?thesis by simp
  next
    case (Delete i)
    have "\<forall>e \<in> set (if fst (delete i users) then removeFirst (hasId i) led else led).
        fst e < length pre \<and> snd e = pre ! fst e"
      using Cons.prems(2) set_removeFirst [of "hasId i" led] by auto
    from Cons.IH [OF rest this Cons.prems(3)] Delete show ?thesis by simp
  qed
qed

lemma CreateUserDto_ann: "CreateUserDto ann"
  by (auto simp: ann_def getProp_def)

lemma CreateUserDto_bea: "CreateUserDto bea"
  by (auto simp: bea_def getProp_def)

lemma CreateUserDto_no_id:
  assumes "CreateUserDto data"
  shows "ownProps data ''id'' = None"
proof (cases data)
  case (JObj ob)
  with assms have "dom ob = {''name'', ''email'', ''role''}" by simp
  then have "''id'' \<notin> dom ob" by simp
  with JObj show ?thesis by (simp add: domIff)
qed (use assms in simp_all)

section \<open>Facts about the route handlers\<close>

lemma toJSON_errorBody: "toJSON (errorBody msg) = errorBody msg"
  by (simp add: errorBody_def fun_eq_iff)

lemma json_errorBody: "json (errorBody msg) st = \<lparr>status = st, body = errorBody msg\<rparr>"
  by (simp add: json_def toJSON_errorBody)

lemma json_message:
  "json (JObj [''message'' \<mapsto> JStr msg]) st =
     \<lparr>status = st, body = JObj [''message'' \<mapsto> JStr msg]\<rparr>"
  by (simp add: json_def fun_eq_iff)

lemma survives_JStr: "survives (JStr s)"
  by (simp add: survives_def)

lemma toJSON_survivors:
  assumes "\<forall>k v. u k = Some v \<longrightarrow> survives v"
  shows "toJSON (JObj u) = JObj u"
proof -
  have "(case map_option toJSON (u k) of Some JUndefined \<Rightarrow> None | w \<Rightarrow> w) = u k" for k
  proof (cases "u k")
    case None
    then show ?thesis by simp
  next
    case (Some v)
    with assms have "toJSON v = v" "v \<noteq> JUndefined" by (simp_all add: survives_def)
    with Some show ?thesis by (cases v) simp_all
  qed
  then show ?thesis by simp
qed

lemma create_survives:
  assumes "\<forall>k v. ownProps data k = Some v \<longrightarrow> survives v"
  shows "\<forall>k v. fst (create now isoNow data users) k = Some v \<longrightarrow> survives v"
  using assms
  by (auto simp: create_def Let_def map_add_def survives_JStr split: option.splits if_splits)

lemma update_survives:
  assumes "\<forall>k v. old k = Some v \<longrightarrow> survives v" and "\<forall>k v. ownProps data k = Some v \<longrightarrow> survives v"
  shows "\<forall>k v. (old ++ ownProps data) k = Some v \<longrightarrow> survives v"
  using assms by (auto simp: map_add_def split: option.splits)

lemma toJSON_mkUser: "toJSON (JObj (mkUser i n e r c)) = JObj (mkUser i n e r c)"
  by (rule toJSON_survivors) (simp add: mkUser_def survives_JStr)

lemma falsy_iff:
  "\<not> truthy v \<longleftrightarrow>
     v = JUndefined \<or> v = JNull \<or> v = JBool False \<or> v = JNum (Finite 0) \<or> v = JNum NaN \<or> v = JStr []"
proof (cases v)
  case (JNum n)
  then show ?thesis by (cases n) auto
qed auto

lemma fieldMissing_JObj:
  "fieldMissing (JObj ob) =
     Some (\<not> truthy (getProp ob ''name'') \<or> \<not> truthy (getProp ob ''email'') \<or>
           \<not> truthy (getProp ob ''role''))"
  by (simp add: fieldMissing_def)

lemma fieldMissing_null: "fieldMissing JNull = None" "fieldMissing JUndefined = None"
  by (simp_all add: fieldMissing_def)

lemma fieldMissing_primitive:
  "fieldMissing (JBool x) = Some True" "fieldMissing (JNum n) = Some True"
  "fieldMissing (JStr s) = Some True" "fieldMissing (JArr vs) = Some True"
  by (simp_all add: fieldMissing_def)

lemma PUT_present:
  assumes "\<exists>u \<in> set users. hasId i u"
  shows "PUT i (Some b) users =
    (json (JObj (the (fst (update i b users)))) 200, snd (update i b users)) \<and>
    fst (update i b users) \<noteq> None"
proof -
  from assms obtain index where ix: "findIndex (hasId i) users = Some index"
    by (auto simp: findIndex_exists)
  show ?thesis
    by (simp add: PUT_def update_present_eq [OF ix])
qed

lemma PUT_absent:
  "\<forall>u \<in> set users. \<not> hasId i u \<Longrightarrow>
     PUT i (Some b) users = (\<lparr>status = 404, body = errorBody ''User not found''\<rparr>, users)"
  by (simp add: PUT_def update_absent_eq json_errorBody)

lemma DELETE_absent:
  "\<forall>u \<in> set users. \<not> hasId i u \<Longrightarrow>
     DELETE i users = (\<lparr>status = 404, body = errorBody ''User not found''\<rparr>, users)"
  by (simp add: DELETE_def delete_absent_eq json_errorBody)

lemma DELETE_present:
  assumes "\<exists>u \<in> set users. hasId i u"
  shows "DELETE i users =
      (\<lparr>status = 200, body = JObj [''message'' \<mapsto> JStr ''User deleted successfully'']\<rparr>,
       snd (delete i users)) \<and>
    fst (delete i users)"
proof -
  from assms obtain index where ix: "findIndex (hasId i) users = Some index"
    by (auto simp: findIndex_exists)
  show ?thesis
    by (simp add: DELETE_def delete_present_eq [OF ix] json_message)
qed

lemma POST_string_fields:
  assumes "\<forall>k \<in> {''name'', ''email'', ''role''}. ob k = None \<or> (\<exists>s. ob k = Some (JStr s))"
  shows "POST now isoNow (Some (JObj ob)) users =
    (if \<exists>k \<in> {''name'', ''email'', ''role''}. ob k = None \<or> ob k = Some (JStr [])
     then (json (errorBody ''Name, email, and role are required'') 400, users)
     else (json (JObj (fst (create now isoNow (JObj ob) users))) 201,
           snd (create now isoNow (JObj ob) users)))"
proof -
  have f: "\<not> truthy (getProp ob k) \<longleftrightarrow> ob k = None \<or> ob k = Some (JStr [])"
    if "k \<in> {''name'', ''email'', ''role''}" for k
    using assms that by (auto simp: getProp_def)
  have "fieldMissing (JObj ob) =
      Some (\<exists>k \<in> {''name'', ''email'', ''role''}. ob k = None \<or> ob k = Some (JStr []))"
    using f [of "''name''"] f [of "''email''"] f [of "''role''"]
    by (simp add: fieldMissing_JObj)
  then show ?thesis
    by (simp add: POST_def split_beta del: insert_iff bex_simps)
qed

section \<open>The claims\<close>

text \<open>
  Claim C1 says that the ids of the live records are pairwise distinct after every sequence
  of store operations from the seed state, and that \<^verbatim>\<open>create\<close> returns an id that no
  live record has. \<^verbatim>\<open>create\<close> takes the id from \<^verbatim>\<open>Date.now()\<close>, which the source
  comments as generating a unique id. Two calls within the same millisecond read the same
  value: the second call returns the id \<^verbatim>\<open>"1700000000000"\<close>, which the record created by
  the first call already has, and the ids of the collection are no longer distinct.
\<close>

theorem create_same_millisecond_same_id:
  "getProp (fst (create 1700000000000 ''2023-11-14T22:13:20.000Z'' bea
            (run [Create 1700000000000 ''2023-11-14T22:13:20.000Z'' ann] seed0))) ''id'' =
     JStr ''1700000000000'' \<and>
   (\<exists>u \<in> set (run [Create 1700000000000 ''2023-11-14T22:13:20.000Z'' ann] seed0).
      getProp u ''id'' = JStr ''1700000000000'') \<and>
   \<not> distinct (map (\<lambda>u. getProp u ''id'') (getAll (run sameMillisecond seed0)))"
  by (simp add: run_sameMillisecond getAll_def create_ann create_bea getProp_mkUser_id)

text \<open>
  Claim C2, as the handler behaves. When the body does not parse, or parses to \<^verbatim>\<open>null\<close>,
  \<^verbatim>\<open>POST\<close> answers 500 with \<^verbatim>\<open>{error: "Failed to create user"}\<close>. When the body is an
  object in which one of \<^verbatim>\<open>name\<close>, \<^verbatim>\<open>email\<close>, \<^verbatim>\<open>role\<close> is missing or falsy (the
  empty string, \<^verbatim>\<open>null\<close>, \<^verbatim>\<open>false\<close>, \<^verbatim>\<open>0\<close>), or when the body is a boolean, a number,
  a string or an array, it answers 400 with
  \<^verbatim>\<open>{error: "Name, email, and role are required"}\<close>. In all these cases the collection is
  unchanged. When the body is an object whose three fields are all truthy it answers 201,
  the collection has the record that \<^verbatim>\<open>create\<close> returned appended, and the body of the
  response is the JSON serialisation of that record: the record itself when every value in
  the request body survives serialisation, as strings do.
\<close>

theorem POST_responses:
  "(request = None \<or> request = Some JNull \<or> request = Some JUndefined \<longrightarrow>
      POST now isoNow request users =
        (\<lparr>status = 500, body = errorBody ''Failed to create user''\<rparr>, users)) \<and>
   (request = Some (JObj ob) \<and>
      (\<exists>k \<in> {''name'', ''email'', ''role''}. ob k = None \<or> (\<exists>v. ob k = Some v \<and> \<not> truthy v)) \<longrightarrow>
      POST now isoNow request users =
        (\<lparr>status = 400, body = errorBody ''Name, email, and role are required''\<rparr>, users)) \<and>
   (request = Some (JObj ob) \<and>
      (\<forall>k \<in> {''name'', ''email'', ''role''}. \<exists>v. ob k = Some v \<and> truthy v) \<longrightarrow>
      POST now isoNow request users =
        (\<lparr>status = 201, body = toJSON (JObj (fst (create now isoNow (JObj ob) users)))\<rparr>,
         users @ [fst (create now isoNow (JObj ob) users)]) \<and>
      ((\<forall>k v. ob k = Some v \<longrightarrow> survives v) \<longrightarrow>
         toJSON (JObj (fst (create now isoNow (JObj ob) users))) =
           JObj (fst (create now isoNow (JObj ob) users)))) \<and>
   (request = Some (JBool x) \<or> request = Some (JNum n) \<or> request = Some (JStr s) \<or>
    request = Some (JArr vs) \<longrightarrow>
      POST now isoNow request users =
        (\<lparr>status = 400, body = errorBody ''Name, email, and role are required''\<rparr>, users))"
proof (intro conjI impI)
  assume "request = None \<or> request = Some JNull \<or> request = Some JUndefined"
  then show "POST now isoNow request users =
      (\<lparr>status = 500, body = errorBody ''Failed to create user''\<rparr>, users)"
    by (auto simp: POST_def fieldMissing_null json_errorBody)
next
  assume a: "request = Some (JObj ob) \<and>
      (\<exists>k \<in> {''name'', ''email'', ''role''}. ob k = None \<or> (\<exists>v. ob k = Some v \<and> \<not> truthy v))"
  then have "\<not> truthy (getProp ob ''name'') \<or> \<not> truthy (getProp ob ''email'') \<or>
           \<not> truthy (getProp ob ''role'')"
    by (auto simp: getProp_def)
  with a show "POST now isoNow request users =
        (\<lparr>status = 400, body = errorBody ''Name, email, and role are required''\<rparr>, users)"
    by (simp add: POST_def fieldMissing_JObj json_errorBody)
next
  assume a: "request = Some (JObj ob) \<and>
      (\<forall>k \<in> {''name'', ''email'', ''role''}. \<exists>v. ob k = Some v \<and> truthy v)"
  then have "truthy (getProp ob ''name'') \<and> truthy (getProp ob ''email'') \<and>
           truthy (getProp ob ''role'')"
    by (auto simp: getProp_def)
  with a show "POST now isoNow request users =
        (\<lparr>status = 201, body = toJSON (JObj (fst (create now isoNow (JObj ob) users)))\<rparr>,
         users @ [fst (create now isoNow (JObj ob) users)])"
    by (simp add: POST_def fieldMissing_JObj create_appends [symmetric] split_beta json_def
        del: toJSON.simps)
next
  assume "request = Some (JObj ob) \<and>
      (\<forall>k \<in> {''name'', ''email'', ''role''}. \<exists>v. ob k = Some v \<and> truthy v)"
  assume "\<forall>k v. ob k = Some v \<longrightarrow> survives v"
  then have "\<forall>k v. ownProps (JObj ob) k = Some v \<longrightarrow> survives v" by simp
  then show "toJSON (JObj (fst (create now isoNow (JObj ob) users))) =
           JObj (fst (create now isoNow (JObj ob) users))"
    by (intro toJSON_survivors create_survives)
next
  assume "request = Some (JBool x) \<or> request = Some (JNum n) \<or> request = Some (JStr s) \<or>
    request = Some (JArr vs)"
  then show "POST now isoNow request users =
        (\<lparr>status = 400, body = errorBody ''Name, email, and role are required''\<rparr>, users)"
    by (auto simp: POST_def fieldMissing_primitive json_errorBody)
qed

theorem POST_responses_witness:
  "POST 1700000000000 ''2023-11-14T22:13:20.000Z'' None seed0 =
     (\<lparr>status = 500, body = errorBody ''Failed to create user''\<rparr>, seed0) \<and>
   POST 1700000000000 ''2023-11-14T22:13:20.000Z''
     (Some (JObj [''name'' \<mapsto> JStr [], ''email'' \<mapsto> JStr ''a@b.com'', ''role'' \<mapsto> JStr ''User''])) seed0 =
     (\<lparr>status = 400, body = errorBody ''Name, email, and role are required''\<rparr>, seed0) \<and>
   POST 1700000000000 ''2023-11-14T22:13:20.000Z''
     (Some (JObj [''name'' \<mapsto> JStr ''Ann'', ''email'' \<mapsto> JStr ''ann@x.com'', ''role'' \<mapsto> JStr ''User''])) seed0 =
     (\<lparr>status = 201,
       body = JObj (mkUser ''1700000000000'' ''Ann'' ''ann@x.com'' ''User'' ''2023-11-14T22:13:20.000Z'')\<rparr>,
      seed0 @ [mkUser ''1700000000000'' ''Ann'' ''ann@x.com'' ''User'' ''2023-11-14T22:13:20.000Z'']) \<and>
   POST 1700000000000 ''2023-11-14T22:13:20.000Z'' (Some (JNum (Finite 5))) seed0 =
     (\<lparr>status = 400, body = errorBody ''Name, email, and role are required''\<rparr>, seed0)"
proof -
  note r = POST_responses [where now = 1700000000000 and isoNow = "''2023-11-14T22:13:20.000Z''"
      and users = seed0]
  have c1: "POST 1700000000000 ''2023-11-14T22:13:20.000Z'' None seed0 =
     (\<lparr>status = 500, body = errorBody ''Failed to create user''\<rparr>, seed0)"
    using r [where request = None] by simp
  have c2: "POST 1700000000000 ''2023-11-14T22:13:20.000Z''
     (Some (JObj [''name'' \<mapsto> JStr [], ''email'' \<mapsto> JStr ''a@b.com'', ''role'' \<mapsto> JStr ''User''])) seed0 =
     (\<lparr>status = 400, body = errorBody ''Name, email, and role are required''\<rparr>, seed0)"
    using r [where request = "Some (JObj [''name'' \<mapsto> JStr [], ''email'' \<mapsto> JStr ''a@b.com'',
        ''role'' \<mapsto> JStr ''User''])"
      and ob = "[''name'' \<mapsto> JStr [], ''email'' \<mapsto> JStr ''a@b.com'', ''role'' \<mapsto> JStr ''User'']"]
    by simp
  have sv: "\<forall>k v. [''name'' \<mapsto> JStr ''Ann'', ''email'' \<mapsto> JStr ''ann@x.com'',
      ''role'' \<mapsto> JStr ''User''] k = Some v \<longrightarrow> survives v"
    by (simp add: survives_JStr)
  have tr: "\<forall>k \<in> {''name'', ''email'', ''role''}. \<exists>v. [''name'' \<mapsto> JStr ''Ann'',
      ''email'' \<mapsto> JStr ''ann@x.com'', ''role'' \<mapsto> JStr ''User''] k = Some v \<and> truthy v"
    by simp
  from r [where request = "Some (JObj [''name'' \<mapsto> JStr ''Ann'', ''email'' \<mapsto> JStr ''ann@x.com'',
        ''role'' \<mapsto> JStr ''User''])"
      and ob = "[''name'' \<mapsto> JStr ''Ann'', ''email'' \<mapsto> JStr ''ann@x.com'', ''role'' \<mapsto> JStr ''User'']"]
    sv tr
  have "POST 1700000000000 ''2023-11-14T22:13:20.000Z''
     (Some (JObj [''name'' \<mapsto> JStr ''Ann'', ''email'' \<mapsto> JStr ''ann@x.com'', ''role'' \<mapsto> JStr ''User''])) seed0 =
     (\<lparr>status = 201, body = JObj (fst (create 1700000000000 ''2023-11-14T22:13:20.000Z''
         (JObj [''name'' \<mapsto> JStr ''Ann'', ''email'' \<mapsto> JStr ''ann@x.com'', ''role'' \<mapsto> JStr ''User'']) seed0))\<rparr>,
      seed0 @ [fst (create 1700000000000 ''2023-11-14T22:13:20.000Z''
         (JObj [''name'' \<mapsto> JStr ''Ann'', ''email'' \<mapsto> JStr ''ann@x.com'', ''role'' \<mapsto> JStr ''User'']) seed0)])"
    by metis
  then have c3: "POST 1700000000000 ''2023-11-14T22:13:20.000Z''
     (Some (JObj [''name'' \<mapsto> JStr ''Ann'', ''email'' \<mapsto> JStr ''ann@x.com'', ''role'' \<mapsto> JStr ''User''])) seed0 =
     (\<lparr>status = 201,
       body = JObj (mkUser ''1700000000000'' ''Ann'' ''ann@x.com'' ''User'' ''2023-11-14T22:13:20.000Z'')\<rparr>,
      seed0 @ [mkUser ''1700000000000'' ''Ann'' ''ann@x.com'' ''User'' ''2023-11-14T22:13:20.000Z''])"
    using create_ann [of "''2023-11-14T22:13:20.000Z''" seed0] by (simp add: ann_def)
  have c4: "POST 1700000000000 ''2023-11-14T22:13:20.000Z'' (Some (JNum (Finite 5))) seed0 =
     (\<lparr>status = 400, body = errorBody ''Name, email, and role are required''\<rparr>, seed0)"
    using r [where request = "Some (JNum (Finite 5))" and n = "Finite 5"] by simp
  from c1 c2 c3 c4 show ?thesis by (intro conjI)
qed

text \<open>
  Claim C2 as stated fails: it promises 400 whenever a field is missing, and 201 with the
  created record as body whenever no field is missing or empty. A body \<^verbatim>\<open>null\<close> has no
  fields and gets 500, as does a body that is not JSON; a body with \<^verbatim>\<open>name: 0\<close> has a
  name that is neither missing nor the empty string and gets 400; and for a body with
  \<^verbatim>\<open>name: 1e999\<close>, which parses to \<^verbatim>\<open>Infinity\<close>, the answer is 201 with
  \<^verbatim>\<open>name: null\<close> in the body while the created record holds \<^verbatim>\<open>Infinity\<close>.
\<close>

theorem POST_null_zero_infinity:
  "POST 1700000000000 ''2023-11-14T22:13:20.000Z'' (Some JNull) seed0 =
     (\<lparr>status = 500, body = errorBody ''Failed to create user''\<rparr>, seed0) \<and>
   POST 1700000000000 ''2023-11-14T22:13:20.000Z'' None seed0 =
     (\<lparr>status = 500, body = errorBody ''Failed to create user''\<rparr>, seed0) \<and>
   POST 1700000000000 ''2023-11-14T22:13:20.000Z''
     (Some (JObj [''name'' \<mapsto> JNum (Finite 0), ''email'' \<mapsto> JStr ''a@b.com'', ''role'' \<mapsto> JStr ''User''])) seed0 =
     (\<lparr>status = 400, body = errorBody ''Name, email, and role are required''\<rparr>, seed0) \<and>
   status (fst (POST 1700000000000 ''2023-11-14T22:13:20.000Z''
     (Some (JObj [''name'' \<mapsto> JNum PosInfinity, ''email'' \<mapsto> JStr ''a@b.com'', ''role'' \<mapsto> JStr ''User''])) seed0)) =
     201 \<and>
   member (body (fst (POST 1700000000000 ''2023-11-14T22:13:20.000Z''
     (Some (JObj [''name'' \<mapsto> JNum PosInfinity, ''email'' \<mapsto> JStr ''a@b.com'', ''role'' \<mapsto> JStr ''User''])) seed0)))
     ''name'' = Some JNull \<and>
   getProp (fst (create 1700000000000 ''2023-11-14T22:13:20.000Z''
     (JObj [''name'' \<mapsto> JNum PosInfinity, ''email'' \<mapsto> JStr ''a@b.com'', ''role'' \<mapsto> JStr ''User'']) seed0))
     ''name'' = JNum PosInfinity"
  by (simp add: POST_def fieldMissing_def getProp_def toJSON_errorBody json_def create_def Let_def)

text \<open>
  Claim C3. In a state that holds a record with the given id, \<^verbatim>\<open>update\<close> with a
  partial-fields argument (an \<^verbatim>\<open>UpdateUserDto\<close>) returns the updated record, which is the
  first record with that id; each property of that record is the one given in the argument
  if the argument has it and keeps its prior value otherwise, so \<^verbatim>\<open>id\<close> and
  \<^verbatim>\<open>createdAt\<close> keep their values; every other record and the length of the collection
  are unchanged; and with the empty argument \<^verbatim>\<open>{}\<close> the record and the collection are
  unchanged.
\<close>

theorem update_frame:
  assumes "\<exists>u \<in> set users. hasId i u" and "UpdateUserDto data"
  shows "\<exists>index u'. index < length users \<and> hasId i (users ! index) \<and>
      fst (update i data users) = Some u' \<and>
      length (snd (update i data users)) = length users \<and>
      snd (update i data users) ! index = u' \<and>
      (\<forall>j < length users. j \<noteq> index \<longrightarrow> snd (update i data users) ! j = users ! j) \<and>
      (\<forall>k. u' k = (case ownProps data k of None \<Rightarrow> (users ! index) k | Some v \<Rightarrow> Some v)) \<and>
      u' ''id'' = (users ! index) ''id'' \<and>
      u' ''createdAt'' = (users ! index) ''createdAt'' \<and>
      (data = JObj Map.empty \<longrightarrow> u' = users ! index \<and> snd (update i data users) = users)"
proof -
  from assms(1) obtain index where ix: "findIndex (hasId i) users = Some index"
    by (auto simp: findIndex_exists)
  then have lt: "index < length users" and has: "hasId i (users ! index)"
    by (simp_all add: findIndex_Some_iff)
  define u' where "u' = users ! index ++ ownProps data"
  have upd: "update i data users = (Some u', users[index := u'])"
    using ix by (simp add: update_present_eq u'_def)
  have app: "u' k = (case ownProps data k of None \<Rightarrow> (users ! index) k | Some v \<Rightarrow> Some v)" for k
    by (simp add: u'_def spread_apply)
  have keep_id: "u' ''id'' = (users ! index) ''id''"
    using UpdateUserDto_keeps [OF assms(2), of "''id''"] by (simp add: app)
  have keep_created: "u' ''createdAt'' = (users ! index) ''createdAt''"
    using UpdateUserDto_keeps [OF assms(2), of "''createdAt''"] by (simp add: app)
  have empty: "data = JObj Map.empty \<longrightarrow> u' = users ! index \<and> snd (update i data users) = users"
  proof
    assume "data = JObj Map.empty"
    then have "u' = users ! index" by (simp add: u'_def)
    with upd show "u' = users ! index \<and> snd (update i data users) = users" by simp
  qed
  have others: "\<forall>j < length users. j \<noteq> index \<longrightarrow> snd (update i data users) ! j = users ! j"
    by (simp add: upd)
  have "index < length users \<and> hasId i (users ! index) \<and>
      fst (update i data users) = Some u' \<and>
      length (snd (update i data users)) = length users \<and>
      snd (update i data users) ! index = u' \<and>
      (\<forall>j < length users. j \<noteq> index \<longrightarrow> snd (update i data users) ! j = users ! j) \<and>
      (\<forall>k. u' k = (case ownProps data k of None \<Rightarrow> (users ! index) k | Some v \<Rightarrow> Some v)) \<and>
      u' ''id'' = (users ! index) ''id'' \<and>
      u' ''createdAt'' = (users ! index) ''createdAt'' \<and>
      (data = JObj Map.empty \<longrightarrow> u' = users ! index \<and> snd (update i data users) = users)"
    using lt has keep_id keep_created empty others app by (simp add: upd)
  then show ?thesis by blast
qed

theorem update_frame_witness:
  "(\<exists>u \<in> set (seed ''t1'' ''t2'' ''t3''). hasId ''2'' u) \<and>
   UpdateUserDto (JObj [''role'' \<mapsto> JStr ''Manager'']) \<and>
   (\<exists>index u'. index < length (seed ''t1'' ''t2'' ''t3'') \<and>
      hasId ''2'' (seed ''t1'' ''t2'' ''t3'' ! index) \<and>
      fst (update ''2'' (JObj [''role'' \<mapsto> JStr ''Manager'']) (seed ''t1'' ''t2'' ''t3'')) = Some u' \<and>
      u' ''id'' = (seed ''t1'' ''t2'' ''t3'' ! index) ''id'' \<and>
      u' ''createdAt'' = (seed ''t1'' ''t2'' ''t3'' ! index) ''createdAt'')"
proof -
  have h1: "\<exists>u \<in> set (seed ''t1'' ''t2'' ''t3''). hasId ''2'' u"
    by (simp add: seed_def mkUser_def hasId_def getProp_def)
  have h2: "UpdateUserDto (JObj [''role'' \<mapsto> JStr ''Manager''])"
    by (simp add: getProp_def)
  from update_frame [OF h1 h2] obtain index u' where
    "index < length (seed ''t1'' ''t2'' ''t3'')"
    "hasId ''2'' (seed ''t1'' ''t2'' ''t3'' ! index)"
    "fst (update ''2'' (JObj [''role'' \<mapsto> JStr ''Manager'']) (seed ''t1'' ''t2'' ''t3'')) = Some u'"
    "u' ''id'' = (seed ''t1'' ''t2'' ''t3'' ! index) ''id''"
    "u' ''createdAt'' = (seed ''t1'' ''t2'' ''t3'' ! index) ''createdAt''"
    by blast
  with h1 h2 show ?thesis by blast
qed

text \<open>
  Claim C4 says that \<^verbatim>\<open>getById\<close> with the id that \<^verbatim>\<open>create\<close> just returned yields
  the record that \<^verbatim>\<open>create\<close> returned. After two \<^verbatim>\<open>create\<close> calls within the same
  millisecond both records have the id \<^verbatim>\<open>"1700000000000"\<close>, and \<^verbatim>\<open>getById\<close> with the id
  returned by the second call yields the record of the first call, which is a different
  record.
\<close>

theorem getById_after_create_same_millisecond:
  "getProp (fst (create 1700000000000 ''2023-11-14T22:13:20.000Z'' bea
            (run [Create 1700000000000 ''2023-11-14T22:13:20.000Z'' ann] seed0))) ''id'' =
     JStr ''1700000000000'' \<and>
   getById ''1700000000000''
     (snd (create 1700000000000 ''2023-11-14T22:13:20.000Z'' bea
            (run [Create 1700000000000 ''2023-11-14T22:13:20.000Z'' ann] seed0))) =
     Some (mkUser ''1700000000000'' ''Ann'' ''ann@x.com'' ''User'' ''2023-11-14T22:13:20.000Z'') \<and>
   fst (create 1700000000000 ''2023-11-14T22:13:20.000Z'' bea
            (run [Create 1700000000000 ''2023-11-14T22:13:20.000Z'' ann] seed0)) =
     mkUser ''1700000000000'' ''Bea'' ''bea@x.com'' ''Admin'' ''2023-11-14T22:13:20.000Z'' \<and>
   mkUser ''1700000000000'' ''Ann'' ''ann@x.com'' ''User'' ''2023-11-14T22:13:20.000Z'' \<noteq>
     mkUser ''1700000000000'' ''Bea'' ''bea@x.com'' ''Admin'' ''2023-11-14T22:13:20.000Z''"
proof -
  have "mkUser ''1700000000000'' ''Ann'' ''ann@x.com'' ''User'' ''2023-11-14T22:13:20.000Z'' ''name''
      \<noteq> mkUser ''1700000000000'' ''Bea'' ''bea@x.com'' ''Admin'' ''2023-11-14T22:13:20.000Z'' ''name''"
    by (simp add: mkUser_def)
  then have ne: "mkUser ''1700000000000'' ''Ann'' ''ann@x.com'' ''User'' ''2023-11-14T22:13:20.000Z'' \<noteq>
     mkUser ''1700000000000'' ''Bea'' ''bea@x.com'' ''Admin'' ''2023-11-14T22:13:20.000Z''"
    by metis
  show ?thesis
    using ne
    by (simp add: create_ann create_bea getProp_mkUser_id getById_def seed0_def seed_def hasId_mkUser)
qed

text \<open>
  Claim C5. In a state where no record has the given id, \<^verbatim>\<open>update\<close> returns
  \<^verbatim>\<open>null\<close> and leaves the collection as it is, whatever its second argument; after any
  number of such calls the collection is still the same and one more call returns
  \<^verbatim>\<open>null\<close> again.
\<close>

theorem update_absent:
  assumes "\<forall>u \<in> set users. \<not> hasId i u"
  shows "update i data users = (None, users) \<and>
    (\<forall>n. ((\<lambda>s. snd (update i data s)) ^^ n) users = users \<and>
         fst (update i data (((\<lambda>s. snd (update i data s)) ^^ n) users)) = None)"
proof -
  have u: "update i data users = (None, users)"
    using assms by (rule update_absent_eq)
  have "((\<lambda>s. snd (update i data s)) ^^ n) users = users" for n
    by (rule funpow_fixed) (simp add: u)
  with u show ?thesis by simp
qed

theorem update_absent_witness:
  "update ''does-not-exist'' (JObj [''name'' \<mapsto> JStr ''X'']) (seed ''t1'' ''t2'' ''t3'') =
     (None, seed ''t1'' ''t2'' ''t3'')"
proof -
  have h: "\<forall>u \<in> set (seed ''t1'' ''t2'' ''t3''). \<not> hasId ''does-not-exist'' u"
    by (simp add: seed_def mkUser_def hasId_def getProp_def)
  from update_absent [OF h] show ?thesis by (rule conjunct1)
qed

text \<open>
  Claim C6 says that after \<^verbatim>\<open>delete\<close> has returned \<^verbatim>\<open>true\<close> for an id,
  \<^verbatim>\<open>getById\<close> with that id yields nothing and a second \<^verbatim>\<open>delete\<close> returns
  \<^verbatim>\<open>false\<close>. After two \<^verbatim>\<open>create\<close> calls within the same millisecond, \<^verbatim>\<open>delete\<close>
  with their common id returns \<^verbatim>\<open>true\<close>, \<^verbatim>\<open>getById\<close> with that id then yields the
  record of the second call, and a second \<^verbatim>\<open>delete\<close> returns \<^verbatim>\<open>true\<close> again.
\<close>

theorem delete_after_create_same_millisecond:
  "fst (delete ''1700000000000'' (run sameMillisecond seed0)) \<and>
   getById ''1700000000000'' (snd (delete ''1700000000000'' (run sameMillisecond seed0))) =
     Some (mkUser ''1700000000000'' ''Bea'' ''bea@x.com'' ''Admin'' ''2023-11-14T22:13:20.000Z'') \<and>
   fst (delete ''1700000000000'' (snd (delete ''1700000000000'' (run sameMillisecond seed0))))"
  unfolding run_sameMillisecond
  by (simp add: delete_def getById_def seed0_def seed_def hasId_mkUser splice1_def)

text \<open>
  Claim C7. \<^verbatim>\<open>getAll\<close> returns the collection and writes nothing; \<^verbatim>\<open>create\<close> puts
  its record at the end. After any run of store operations from the empty collection, with
  \<open>N\<close> calls of \<^verbatim>\<open>create\<close> and \<open>M\<close> calls of \<^verbatim>\<open>delete\<close> that returned
  \<^verbatim>\<open>true\<close>, \<^verbatim>\<open>getAll\<close> returns \<open>N - M\<close> records (and \<open>M \<le> N\<close>), and they are
  the last-written states of the live records, in the order in which the records were
  created: the list equals the states of the ledger, whose entries carry increasing creation
  numbers below \<open>N\<close>. Each listed record is thus one that a \<^verbatim>\<open>create\<close> or \<^verbatim>\<open>update\<close>
  call returned; when the run has no \<^verbatim>\<open>update\<close>, the entry numbered \<open>m\<close> holds the record
  that the \<open>m\<close>-th \<^verbatim>\<open>create\<close> call returned, as it was returned.
\<close>

theorem getAll_after_creates_and_deletes:
  "getAll users = users \<and>
   getAll (snd (create now isoNow data users)) = getAll users @ [fst (create now isoNow data users)] \<and>
   deleted ops [] \<le> length (filter isCreate ops) \<and>
   length (getAll (run ops [])) = length (filter isCreate ops) - deleted ops [] \<and>
   getAll (run ops []) = map snd (lastWritten ops [] [] 0) \<and>
   sorted_wrt (<) (map fst (lastWritten ops [] [] 0)) \<and>
   (\<forall>e \<in> set (lastWritten ops [] [] 0). fst e < length (filter isCreate ops)) \<and>
   set (getAll (run ops [])) \<subseteq> set (returned ops []) \<and>
   ((\<forall>x \<in> set ops. \<not> isUpdate x) \<longrightarrow>
      subseq (getAll (run ops [])) (created ops []) \<and>
      (\<forall>e \<in> set (lastWritten ops [] [] 0). snd e = created ops [] ! fst e))"
proof -
  have "length (run ops []) + deleted ops [] = length (filter isCreate ops)"
    using run_length [of ops "[]"] by simp
  then have count: "deleted ops [] \<le> length (filter isCreate ops)"
    "length (run ops []) = length (filter isCreate ops) - deleted ops []"
    by arith+
  have order: "(\<forall>x \<in> set ops. \<not> isUpdate x) \<longrightarrow> subseq (run ops []) (created ops [])"
    using run_subseq [of ops "[]"] by simp
  have ret: "set (run ops []) \<subseteq> set (returned ops [])"
    using run_returned [of ops "[]"] by simp
  have states: "run ops [] = map snd (lastWritten ops [] [] 0)"
    using lastWritten_states [of "[]" "[]" ops 0] by simp
  have numbers: "sorted_wrt (<) (map fst (lastWritten ops [] [] 0))"
    "\<forall>e \<in> set (lastWritten ops [] [] 0). fst e < length (filter isCreate ops)"
    using lastWritten_numbers [of "[]" 0 ops "[]"] by simp_all
  have made: "(\<forall>x \<in> set ops. \<not> isUpdate x) \<longrightarrow>
      (\<forall>e \<in> set (lastWritten ops [] [] 0). snd e = created ops [] ! fst e)"
    using created_numbers [of ops "[]" "[]" 0 "[]"] by simp
  have "getAll users = users"
    "getAll (snd (create now isoNow data users)) = getAll users @ [fst (create now isoNow data users)]"
    by (simp_all add: getAll_def create_appends)
  with count order ret states numbers made show ?thesis
    unfolding getAll_def by blast
qed

theorem getAll_after_creates_and_deletes_witness:
  "length (getAll (run (sameMillisecond @ [Delete ''1700000000000'']) [])) = 2 - 1 \<and>
   subseq (getAll (run (sameMillisecond @ [Delete ''1700000000000'']) []))
     [mkUser ''1700000000000'' ''Ann'' ''ann@x.com'' ''User'' ''2023-11-14T22:13:20.000Z'',
      mkUser ''1700000000000'' ''Bea'' ''bea@x.com'' ''Admin'' ''2023-11-14T22:13:20.000Z''] \<and>
   map (\<lambda>u. getProp u ''name'')
     (getAll (run [Create 1700000000000 ''2023-11-14T22:13:20.000Z'' ann,
                   Update ''1700000000000'' (JObj [''name'' \<mapsto> JStr ''Zed''])] [])) =
     [JStr ''Zed'']"
proof -
  have h: "\<forall>x \<in> set (sameMillisecond @ [Delete ''1700000000000'']). \<not> isUpdate x"
    by (simp add: sameMillisecond_def)
  have n: "length (filter isCreate (sameMillisecond @ [Delete ''1700000000000''])) = 2"
    by (simp add: sameMillisecond_def)
  have m: "deleted (sameMillisecond @ [Delete ''1700000000000'']) [] = 1"
    by (simp add: sameMillisecond_def create_ann create_bea delete_def hasId_mkUser)
  have c: "created (sameMillisecond @ [Delete ''1700000000000'']) [] =
     [mkUser ''1700000000000'' ''Ann'' ''ann@x.com'' ''User'' ''2023-11-14T22:13:20.000Z'',
      mkUser ''1700000000000'' ''Bea'' ''bea@x.com'' ''Admin'' ''2023-11-14T22:13:20.000Z'']"
    by (simp add: sameMillisecond_def create_ann create_bea)
  from getAll_after_creates_and_deletes [where ops = "sameMillisecond @ [Delete ''1700000000000'']"] h
  have "length (getAll (run (sameMillisecond @ [Delete ''1700000000000'']) [])) =
      length (filter isCreate (sameMillisecond @ [Delete ''1700000000000''])) -
      deleted (sameMillisecond @ [Delete ''1700000000000'']) []"
    and "subseq (getAll (run (sameMillisecond @ [Delete ''1700000000000'']) []))
      (created (sameMillisecond @ [Delete ''1700000000000'']) [])"
    by blast+
  then have c1: "length (getAll (run (sameMillisecond @ [Delete ''1700000000000'']) [])) = 2 - 1"
    and c2: "subseq (getAll (run (sameMillisecond @ [Delete ''1700000000000'']) []))
     [mkUser ''1700000000000'' ''Ann'' ''ann@x.com'' ''User'' ''2023-11-14T22:13:20.000Z'',
      mkUser ''1700000000000'' ''Bea'' ''bea@x.com'' ''Admin'' ''2023-11-14T22:13:20.000Z'']"
    by (simp_all only: n m c)
  have led: "lastWritten [Create 1700000000000 ''2023-11-14T22:13:20.000Z'' ann,
        Update ''1700000000000'' (JObj [''name'' \<mapsto> JStr ''Zed''])] [] [] 0 =
      [(0, mkUser ''1700000000000'' ''Ann'' ''ann@x.com'' ''User'' ''2023-11-14T22:13:20.000Z'' ++
           [''name'' \<mapsto> JStr ''Zed''])]"
    by (simp add: create_ann update_def hasId_mkUser)
  from getAll_after_creates_and_deletes
    [where ops = "[Create 1700000000000 ''2023-11-14T22:13:20.000Z'' ann,
        Update ''1700000000000'' (JObj [''name'' \<mapsto> JStr ''Zed''])]"]
  have "getAll (run [Create 1700000000000 ''2023-11-14T22:13:20.000Z'' ann,
        Update ''1700000000000'' (JObj [''name'' \<mapsto> JStr ''Zed''])] []) =
      map snd (lastWritten [Create 1700000000000 ''2023-11-14T22:13:20.000Z'' ann,
        Update ''1700000000000'' (JObj [''name'' \<mapsto> JStr ''Zed''])] [] [] 0)"
    by blast
  then have c3: "map (\<lambda>u. getProp u ''name'')
     (getAll (run [Create 1700000000000 ''2023-11-14T22:13:20.000Z'' ann,
                   Update ''1700000000000'' (JObj [''name'' \<mapsto> JStr ''Zed''])] [])) =
     [JStr ''Zed'']"
    by (simp only: led) (simp add: getProp_def)
  from c1 c2 c3 show ?thesis by (intro conjI)
qed

text \<open>
  Claim C8, as the handlers behave. When no record has the id, \<^verbatim>\<open>DELETE\<close>, and
  \<^verbatim>\<open>PUT\<close> with a body that parses, answer 404 with \<^verbatim>\<open>{error: "User not found"}\<close> and
  leave the collection unchanged. When a record has the id, \<^verbatim>\<open>PUT\<close> with a body that
  parses answers 200, and the body of the response is the JSON serialisation of the record
  that \<^verbatim>\<open>update\<close> returned: the record itself when every value in it survives
  serialisation; \<^verbatim>\<open>DELETE\<close> answers 200 with
  \<^verbatim>\<open>{message: "User deleted successfully"}\<close>. \<^verbatim>\<open>PUT\<close> with a body that does not parse
  answers 500 with \<^verbatim>\<open>{error: "Failed to update user"}\<close>, whatever the id, and leaves the
  collection unchanged.
\<close>

theorem PUT_DELETE_responses:
  "((\<forall>u \<in> set users. \<not> hasId i u) \<longrightarrow>
      PUT i (Some b) users = (\<lparr>status = 404, body = errorBody ''User not found''\<rparr>, users) \<and>
      DELETE i users = (\<lparr>status = 404, body = errorBody ''User not found''\<rparr>, users)) \<and>
   ((\<exists>u \<in> set users. hasId i u) \<longrightarrow>
      (\<exists>u'. update i b users = (Some u', snd (update i b users)) \<and>
         PUT i (Some b) users =
           (\<lparr>status = 200, body = toJSON (JObj u')\<rparr>, snd (update i b users)) \<and>
         ((\<forall>k v. u' k = Some v \<longrightarrow> survives v) \<longrightarrow> toJSON (JObj u') = JObj u')) \<and>
      fst (delete i users) \<and>
      DELETE i users =
        (\<lparr>status = 200, body = JObj [''message'' \<mapsto> JStr ''User deleted successfully'']\<rparr>,
         snd (delete i users))) \<and>
   PUT i None users = (\<lparr>status = 500, body = errorBody ''Failed to update user''\<rparr>, users)"
proof (intro conjI impI)
  assume "\<forall>u \<in> set users. \<not> hasId i u"
  then show "PUT i (Some b) users = (\<lparr>status = 404, body = errorBody ''User not found''\<rparr>, users)"
    by (rule PUT_absent)
next
  assume "\<forall>u \<in> set users. \<not> hasId i u"
  then show "DELETE i users = (\<lparr>status = 404, body = errorBody ''User not found''\<rparr>, users)"
    by (rule DELETE_absent)
next
  assume a: "\<exists>u \<in> set users. hasId i u"
  from PUT_present [OF a, of b] obtain u' where u': "fst (update i b users) = Some u'"
    by auto
  then have "update i b users = (Some u', snd (update i b users))"
    by (metis prod.collapse)
  moreover from PUT_present [OF a, of b] u'
  have "PUT i (Some b) users = (\<lparr>status = 200, body = toJSON (JObj u')\<rparr>, snd (update i b users))"
    by (simp add: json_def del: toJSON.simps)
  moreover have "(\<forall>k v. u' k = Some v \<longrightarrow> survives v) \<longrightarrow> toJSON (JObj u') = JObj u'"
    using toJSON_survivors by blast
  ultimately show "\<exists>u'. update i b users = (Some u', snd (update i b users)) \<and>
         PUT i (Some b) users =
           (\<lparr>status = 200, body = toJSON (JObj u')\<rparr>, snd (update i b users)) \<and>
         ((\<forall>k v. u' k = Some v \<longrightarrow> survives v) \<longrightarrow> toJSON (JObj u') = JObj u')"
    by blast
next
  assume "\<exists>u \<in> set users. hasId i u"
  then show "fst (delete i users)"
    by (simp add: DELETE_present)
next
  assume "\<exists>u \<in> set users. hasId i u"
  then show "DELETE i users =
        (\<lparr>status = 200, body = JObj [''message'' \<mapsto> JStr ''User deleted successfully'']\<rparr>,
         snd (delete i users))"
    by (simp add: DELETE_present)
next
  show "PUT i None users = (\<lparr>status = 500, body = errorBody ''Failed to update user''\<rparr>, users)"
    by (simp add: PUT_def json_errorBody)
qed

theorem PUT_DELETE_responses_witness:
  "PUT ''does-not-exist'' (Some (JObj [''name'' \<mapsto> JStr ''X''])) seed0 =
     (\<lparr>status = 404, body = errorBody ''User not found''\<rparr>, seed0) \<and>
   DELETE ''does-not-exist'' seed0 = (\<lparr>status = 404, body = errorBody ''User not found''\<rparr>, seed0) \<and>
   status (fst (PUT ''2'' (Some (JObj [''role'' \<mapsto> JStr ''Manager''])) seed0)) = 200 \<and>
   DELETE ''2'' seed0 =
     (\<lparr>status = 200, body = JObj [''message'' \<mapsto> JStr ''User deleted successfully'']\<rparr>,
      snd (delete ''2'' seed0))"
proof -
  have absent: "\<forall>u \<in> set seed0. \<not> hasId ''does-not-exist'' u"
    by (simp add: seed0_def seed_def hasId_mkUser)
  have present: "\<exists>u \<in> set seed0. hasId ''2'' u"
    by (simp add: seed0_def seed_def hasId_mkUser)
  note a = PUT_DELETE_responses [where users = seed0 and i = "''does-not-exist''"
      and b = "JObj [''name'' \<mapsto> JStr ''X'']"]
  note p = PUT_DELETE_responses [where users = seed0 and i = "''2''"
      and b = "JObj [''role'' \<mapsto> JStr ''Manager'']"]
  from a absent have c1: "PUT ''does-not-exist'' (Some (JObj [''name'' \<mapsto> JStr ''X''])) seed0 =
     (\<lparr>status = 404, body = errorBody ''User not found''\<rparr>, seed0)"
    and c2: "DELETE ''does-not-exist'' seed0 =
     (\<lparr>status = 404, body = errorBody ''User not found''\<rparr>, seed0)"
    by blast+
  from p present obtain u' where
    "PUT ''2'' (Some (JObj [''role'' \<mapsto> JStr ''Manager''])) seed0 =
       (\<lparr>status = 200, body = toJSON (JObj u')\<rparr>,
        snd (update ''2'' (JObj [''role'' \<mapsto> JStr ''Manager'']) seed0))"
    by blast
  then have c3: "status (fst (PUT ''2'' (Some (JObj [''role'' \<mapsto> JStr ''Manager''])) seed0)) = 200"
    by simp
  from p present have c4: "DELETE ''2'' seed0 =
     (\<lparr>status = 200, body = JObj [''message'' \<mapsto> JStr ''User deleted successfully'']\<rparr>,
      snd (delete ''2'' seed0))"
    by blast
  from c1 c2 c3 c4 show ?thesis by (intro conjI)
qed

text \<open>
  Claim C8 as stated fails: a \<^verbatim>\<open>PUT\<close> request whose id matches no record and whose body
  is not JSON gets 500, not 404; and a \<^verbatim>\<open>PUT\<close> request for the id \<^verbatim>\<open>"2"\<close> with the body
  \<^verbatim>\<open>{"name": 1e999}\<close> gets 200 with \<^verbatim>\<open>name: null\<close> in the body while the updated record
  holds \<^verbatim>\<open>Infinity\<close>.
\<close>

theorem PUT_unparsed_body_and_infinity:
  "getById ''does-not-exist'' seed0 = None \<and>
   PUT ''does-not-exist'' None seed0 =
     (\<lparr>status = 500, body = errorBody ''Failed to update user''\<rparr>, seed0) \<and>
   status (fst (PUT ''2'' (Some (JObj [''name'' \<mapsto> JNum PosInfinity])) seed0)) = 200 \<and>
   member (body (fst (PUT ''2'' (Some (JObj [''name'' \<mapsto> JNum PosInfinity])) seed0))) ''name'' =
     Some JNull \<and>
   getProp (snd (PUT ''2'' (Some (JObj [''name'' \<mapsto> JNum PosInfinity])) seed0) ! 1) ''name'' =
     JNum PosInfinity"
  by (simp add: PUT_def getById_def seed0_def seed_def hasId_mkUser toJSON_errorBody json_def
      update_def getProp_def)

text \<open>
  Claim C9. In a state where two records at positions \<open>a < b\<close> share an id, the
  earliest-inserted record with that id sits at some position \<open>first \<le> a\<close>;
  \<^verbatim>\<open>getById\<close> returns it, \<^verbatim>\<open>update\<close> rewrites it and no other record, and
  \<^verbatim>\<open>delete\<close> returns \<^verbatim>\<open>true\<close> and removes exactly that one record: the records
  before it stay in place, the records after it move down by one, and the record that was
  at \<open>b\<close> is still in the collection with the same id.
\<close>

theorem duplicate_ids_first_match:
  assumes "a < b" and "b < length users" and "hasId i (users ! a)" and "hasId i (users ! b)"
  shows "\<exists>first \<le> a. hasId i (users ! first) \<and> (\<forall>j < first. \<not> hasId i (users ! j)) \<and>
      getById i users = Some (users ! first) \<and>
      update i data users =
        (Some (users ! first ++ ownProps data), users[first := users ! first ++ ownProps data]) \<and>
      (\<forall>j < length users. j \<noteq> first \<longrightarrow> snd (update i data users) ! j = users ! j) \<and>
      fst (delete i users) \<and>
      Suc (length (snd (delete i users))) = length users \<and>
      (\<forall>j < first. snd (delete i users) ! j = users ! j) \<and>
      (\<forall>j < length users. first < j \<longrightarrow> snd (delete i users) ! (j - 1) = users ! j) \<and>
      hasId i (snd (delete i users) ! (b - 1))"
proof -
  from assms have "a < length users" by simp
  with assms(3) obtain first where le: "first \<le> a"
    and ix: "findIndex (hasId i) users = Some first"
    using findIndex_least [of a users "hasId i"] by blast
  from ix have lt: "first < length users" and has: "hasId i (users ! first)"
    and least: "\<forall>j < first. \<not> hasId i (users ! j)"
    by (simp_all add: findIndex_Some_iff)
  have upd: "update i data users =
      (Some (users ! first ++ ownProps data), users[first := users ! first ++ ownProps data])"
    using ix by (rule update_present_eq)
  have del: "delete i users = (True, splice1 first users)"
    using ix by (rule delete_present_eq)
  have others: "\<forall>j < length users. j \<noteq> first \<longrightarrow> snd (update i data users) ! j = users ! j"
    by (simp add: upd)
  have len: "Suc (length (snd (delete i users))) = length users"
    using lt by (simp add: del length_splice1)
  have before: "\<forall>j < first. snd (delete i users) ! j = users ! j"
    using lt by (simp add: del splice1_before)
  have after: "\<forall>j < length users. first < j \<longrightarrow> snd (delete i users) ! (j - 1) = users ! j"
    using splice1_after [of first _ users] by (simp add: del)
  from le assms(1) have "first < b" by simp
  with after assms(2) have "snd (delete i users) ! (b - 1) = users ! b" by simp
  with assms(4) have later: "hasId i (snd (delete i users) ! (b - 1))" by simp
  have "first \<le> a \<and> hasId i (users ! first) \<and> (\<forall>j < first. \<not> hasId i (users ! j)) \<and>
      getById i users = Some (users ! first) \<and>
      update i data users =
        (Some (users ! first ++ ownProps data), users[first := users ! first ++ ownProps data]) \<and>
      (\<forall>j < length users. j \<noteq> first \<longrightarrow> snd (update i data users) ! j = users ! j) \<and>
      fst (delete i users) \<and>
      Suc (length (snd (delete i users))) = length users \<and>
      (\<forall>j < first. snd (delete i users) ! j = users ! j) \<and>
      (\<forall>j < length users. first < j \<longrightarrow> snd (delete i users) ! (j - 1) = users ! j) \<and>
      hasId i (snd (delete i users) ! (b - 1))"
    using le has least getById_present [OF ix] upd others len before after later
    by (simp add: del)
  then show ?thesis by blast
qed

theorem duplicate_ids_first_match_witness:
  "fst (delete ''1700000000000'' (run sameMillisecond seed0)) \<and>
   Suc (length (snd (delete ''1700000000000'' (run sameMillisecond seed0)))) =
     length (run sameMillisecond seed0) \<and>
   hasId ''1700000000000'' (snd (delete ''1700000000000'' (run sameMillisecond seed0)) ! (4 - 1))"
proof -
  have h1: "(3::nat) < 4" by simp
  have h2: "4 < length (run sameMillisecond seed0)"
    unfolding run_sameMillisecond by (simp add: seed0_def seed_def)
  have h3: "hasId ''1700000000000'' (run sameMillisecond seed0 ! 3)"
    unfolding run_sameMillisecond by (simp add: seed0_def seed_def hasId_mkUser)
  have h4: "hasId ''1700000000000'' (run sameMillisecond seed0 ! 4)"
    unfolding run_sameMillisecond by (simp add: seed0_def seed_def hasId_mkUser)
  from duplicate_ids_first_match [OF h1 h2 h3 h4, of JNull] show ?thesis
    by blast
qed

text \<open>
  Claim C10. Neither \<^verbatim>\<open>update\<close> nor the \<^verbatim>\<open>PUT\<close> handler checks its fields: when a
  record with the id exists, \<^verbatim>\<open>PUT\<close> answers 200 for every body that parses; and when
  the body gives the empty string for a property, \<^verbatim>\<open>update\<close> returns a record that has
  the empty string there, that record is in the collection (and is the one \<^verbatim>\<open>getById\<close>
  finds, when the body does not also carry an \<^verbatim>\<open>id\<close>), and the handler answers 200
  with that record passed to \<^verbatim>\<open>NextResponse.json\<close>.
\<close>

theorem update_stores_empty_string:
  assumes "\<exists>u \<in> set users. hasId i u" and "ob k = Some (JStr [])"
  shows "\<exists>u'. update i (JObj ob) users = (Some u', snd (update i (JObj ob) users)) \<and>
      u' k = Some (JStr []) \<and>
      u' \<in> set (snd (update i (JObj ob) users)) \<and>
      (ob ''id'' = None \<longrightarrow> getById i (snd (update i (JObj ob) users)) = Some u') \<and>
      PUT i (Some (JObj ob)) users = (json (JObj u') 200, snd (update i (JObj ob) users)) \<and>
      (\<forall>b. status (fst (PUT i (Some b) users)) = 200)"
proof -
  from assms(1) obtain index where ix: "findIndex (hasId i) users = Some index"
    by (auto simp: findIndex_exists)
  then have lt: "index < length users" and has: "hasId i (users ! index)"
    by (simp_all add: findIndex_Some_iff)
  define u' where "u' = users ! index ++ ob"
  have upd: "update i (JObj ob) users = (Some u', users[index := u'])"
    using update_present_eq [OF ix, of "JObj ob"] by (simp add: u'_def)
  have stored: "u' k = Some (JStr [])"
    using assms(2) by (simp add: u'_def)
  have mem: "u' \<in> set (users[index := u'])"
    using lt by (simp add: set_update_memI)
  have found: "ob ''id'' = None \<longrightarrow> getById i (users[index := u']) = Some u'"
  proof
    assume "ob ''id'' = None"
    then have "u' ''id'' = (users ! index) ''id''"
      by (simp add: u'_def map_add_def)
    with has have "hasId i u'" by (simp add: hasId_def getProp_def)
    then have "findIndex (hasId i) (users[index := u']) = Some index"
      using ix by (rule findIndex_list_update [rotated])
    then show "getById i (users[index := u']) = Some u'"
      using lt by (simp add: getById_present)
  qed
  have put: "PUT i (Some (JObj ob)) users = (json (JObj u') 200, users[index := u'])"
    by (simp add: PUT_def upd)
  have any: "\<forall>b. status (fst (PUT i (Some b) users)) = 200"
    using PUT_present [OF assms(1)] by (simp add: json_def)
  from stored mem found put any show ?thesis
    by (simp add: upd)
qed

theorem update_stores_empty_string_witness:
  "status (fst (PUT ''1'' (Some (JObj [''name'' \<mapsto> JStr []])) seed0)) = 200 \<and>
   (\<exists>u'. getById ''1'' (snd (PUT ''1'' (Some (JObj [''name'' \<mapsto> JStr []])) seed0)) = Some u' \<and>
      u' ''name'' = Some (JStr []))"
proof -
  have h1: "\<exists>u \<in> set seed0. hasId ''1'' u"
    by (simp add: seed0_def seed_def hasId_mkUser)
  have h2: "[''name'' \<mapsto> JStr []] ''name'' = Some (JStr [])"
    by simp
  have h3: "[''name'' \<mapsto> JStr []] ''id'' = None"
    by simp
  from update_stores_empty_string
      [where users = seed0 and i = "''1''" and ob = "[''name'' \<mapsto> JStr []]" and k = "''name''",
        OF h1 h2] h3
  obtain u' where
    "u' ''name'' = Some (JStr [])"
    "getById ''1'' (snd (update ''1'' (JObj [''name'' \<mapsto> JStr []]) seed0)) = Some u'"
    "PUT ''1'' (Some (JObj [''name'' \<mapsto> JStr []])) seed0 =
       (json (JObj u') 200, snd (update ''1'' (JObj [''name'' \<mapsto> JStr []]) seed0))"
    by blast
  then show ?thesis by (simp add: json_def)
qed

end
